theory Spec2Isabelle
  imports Main "HOL-Library.Word" "HOL-Library.Multiset" "HOL-Library.AList"
begin

unbundle bit_operations_syntax

section \<open>The sample intake of organize\_samples.py\<close>

text \<open>
  The script \<^verbatim>\<open>scripts/organize_samples.py\<close> copies the \<^verbatim>\<open>.exe\<close> files of a source
  directory into \<^verbatim>\<open><base_dir>/original/<sample_type>/\<close>, skipping files without the
  \<^verbatim>\<open>MZ\<close> header and files whose SHA-256 digest was already seen in the same call, and
  counts what it did in \<^verbatim>\<open>self.stats\<close>. The embedding below follows the class
  \<^verbatim>\<open>SampleOrganizer\<close> method by method. Everything outside the Python process (the source
  files, the destination tree, the clock) is explicit data; \<^verbatim>\<open>print\<close> is not modelled.
\<close>

subsection \<open>Bytes and exceptions\<close>

type_synonym byte = "8 word"

text \<open>
  The exceptions the file operations and the dictionary access of the script raise. All of
  them are subclasses of Python's \<^verbatim>\<open>Exception\<close>; signals delivered from outside the
  program (\<^verbatim>\<open>KeyboardInterrupt\<close>) are not part of the model.
\<close>

datatype exn = FileNotFoundError | PermissionError | OSError | KeyError string

subsection \<open>hashlib.sha256\<close>

text \<open>SHA-256 as in FIPS 180-4, on byte lists, with 32-bit words.\<close>

type_synonym u32 = "32 word"

definition sha256_k :: "u32 list" where
  "sha256_k =
    [0x428A2F98, 0x71374491, 0xB5C0FBCF, 0xE9B5DBA5, 0x3956C25B, 0x59F111F1, 0x923F82A4, 0xAB1C5ED5,
     0xD807AA98, 0x12835B01, 0x243185BE, 0x550C7DC3, 0x72BE5D74, 0x80DEB1FE, 0x9BDC06A7, 0xC19BF174,
     0xE49B69C1, 0xEFBE4786, 0x0FC19DC6, 0x240CA1CC, 0x2DE92C6F, 0x4A7484AA, 0x5CB0A9DC, 0x76F988DA,
     0x983E5152, 0xA831C66D, 0xB00327C8, 0xBF597FC7, 0xC6E00BF3, 0xD5A79147, 0x06CA6351, 0x14292967,
     0x27B70A85, 0x2E1B2138, 0x4D2C6DFC, 0x53380D13, 0x650A7354, 0x766A0ABB, 0x81C2C92E, 0x92722C85,
     0xA2BFE8A1, 0xA81A664B, 0xC24B8B70, 0xC76C51A3, 0xD192E819, 0xD6990624, 0xF40E3585, 0x106AA070,
     0x19A4C116, 0x1E376C08, 0x2748774C, 0x34B0BCB5, 0x391C0CB3, 0x4ED8AA4A, 0x5B9CCA4F, 0x682E6FF3,
     0x748F82EE, 0x78A5636F, 0x84C87814, 0x8CC70208, 0x90BEFFFA, 0xA4506CEB, 0xBEF9A3F7, 0xC67178F2]"

definition sha256_h0 :: "u32 list" where
  "sha256_h0 =
    [0x6A09E667, 0xBB67AE85, 0x3C6EF372, 0xA54FF53A, 0x510E527F, 0x9B05688C, 0x1F83D9AB, 0x5BE0CD19]"

definition be32 :: "byte list \<Rightarrow> u32" where
  "be32 bs = foldl (\<lambda>acc b. push_bit 8 acc OR ucast b) 0 bs"

fun be_bytes :: "nat \<Rightarrow> nat \<Rightarrow> byte list" where
  "be_bytes 0 v = []"
| "be_bytes (Suc n) v = be_bytes n (v div 256) @ [of_nat (v mod 256)]"

definition sha256_pad :: "byte list \<Rightarrow> byte list" where
  "sha256_pad m =
     m @ [0x80] @ replicate ((119 - length m mod 64) mod 64) 0 @ be_bytes 8 (8 * length m)"

fun blocks_of :: "nat \<Rightarrow> nat \<Rightarrow> 'a list \<Rightarrow> 'a list list" where
  "blocks_of 0 sz xs = []"
| "blocks_of (Suc n) sz xs = take sz xs # blocks_of n sz (drop sz xs)"

definition ssig0 :: "u32 \<Rightarrow> u32" where
  "ssig0 x = word_rotr 7 x XOR word_rotr 18 x XOR drop_bit 3 x"

definition ssig1 :: "u32 \<Rightarrow> u32" where
  "ssig1 x = word_rotr 17 x XOR word_rotr 19 x XOR drop_bit 10 x"

definition bsig0 :: "u32 \<Rightarrow> u32" where
  "bsig0 x = word_rotr 2 x XOR word_rotr 13 x XOR word_rotr 22 x"

definition bsig1 :: "u32 \<Rightarrow> u32" where
  "bsig1 x = word_rotr 6 x XOR word_rotr 11 x XOR word_rotr 25 x"

definition ch :: "u32 \<Rightarrow> u32 \<Rightarrow> u32 \<Rightarrow> u32" where
  "ch x y z = (x AND y) XOR (NOT x AND z)"

definition maj :: "u32 \<Rightarrow> u32 \<Rightarrow> u32 \<Rightarrow> u32" where
  "maj x y z = (x AND y) XOR (x AND z) XOR (y AND z)"

fun schedule :: "nat \<Rightarrow> u32 list \<Rightarrow> u32 list" where
  "schedule 0 w = w"
| "schedule (Suc n) w =
     (let t = length w
      in schedule n (w @ [ssig1 (w ! (t - 2)) + w ! (t - 7) + ssig0 (w ! (t - 15)) + w ! (t - 16)]))"

definition sha256_round :: "u32 list \<Rightarrow> u32 \<times> u32 \<Rightarrow> u32 list" where
  "sha256_round v kw =
     (let a = v ! 0; b = v ! 1; c = v ! 2; d = v ! 3; e = v ! 4; f = v ! 5; g = v ! 6; h = v ! 7;
          t1 = h + bsig1 e + ch e f g + fst kw + snd kw;
          t2 = bsig0 a + maj a b c
      in [t1 + t2, a, b, c, d + t1, e, f, g])"

definition sha256_block :: "u32 list \<Rightarrow> byte list \<Rightarrow> u32 list" where
  "sha256_block hs blk =
     (let w = schedule 48 (map be32 (blocks_of 16 4 blk))
      in map2 (+) hs (foldl sha256_round hs (zip sha256_k w)))"

definition sha256 :: "byte list \<Rightarrow> u32 list" where
  "sha256 m =
     (let p = sha256_pad m
      in foldl sha256_block sha256_h0 (blocks_of (length p div 64) 64 p))"

definition hex_digit :: "nat \<Rightarrow> char" where
  "hex_digit n = ''0123456789abcdef'' ! (n mod 16)"

definition hex32 :: "u32 \<Rightarrow> string" where
  "hex32 w = map (\<lambda>i. hex_digit (unat (drop_bit (4 * i) w AND 15))) [7, 6, 5, 4, 3, 2, 1, 0]"

definition sha256_hexdigest :: "byte list \<Rightarrow> string" where
  "sha256_hexdigest m = concat (map hex32 (sha256 m))"

text \<open>
  The hash object of \<^verbatim>\<open>hashlib\<close>: its state is the message fed so far, \<^verbatim>\<open>update\<close> appends
  a chunk, \<^verbatim>\<open>hexdigest\<close> is the digest of the whole message in lowercase hexadecimal.
\<close>

type_synonym hasher = "byte list"

definition hashlib_sha256 :: hasher where
  "hashlib_sha256 = []"

definition update :: "hasher \<Rightarrow> byte list \<Rightarrow> hasher" where
  "update sha chunk = sha @ chunk"

definition hexdigest :: "hasher \<Rightarrow> string" where
  "hexdigest sha = sha256_hexdigest sha"

subsection \<open>Source files\<close>

text \<open>
  A file of the source directory: its name, its bytes, and how the operating system answers
  the script. \<open>open_err = Some e\<close>: opening it for reading raises \<open>e\<close> (missing, permission
  denied, a directory). \<open>read_err = Some (k, e)\<close>: the bytes from offset \<open>k\<close> on cannot be
  read, a read that would return one of them raises \<open>e\<close>. \<open>copy_err = Some (e, r)\<close>: \<^verbatim>\<open>shutil.copy2\<close> of
  this file raises \<open>e\<close>; \<open>r = None\<close> when it fails before the destination file is created,
  \<open>r = Some k\<close> when it fails after \<open>k\<close> bytes were written there.
\<close>

record src_file =
  fname :: string
  fbytes :: "byte list"
  open_err :: "exn option"
  read_err :: "(nat \<times> exn) option"
  copy_err :: "(exn \<times> nat option) option"

definition open_rb :: "src_file \<Rightarrow> exn + unit" where
  "open_rb f = (case open_err f of Some e \<Rightarrow> Inl e | None \<Rightarrow> Inr ())"

text \<open>\<^verbatim>\<open>f.read(n)\<close> at position \<open>pos\<close>: up to \<open>n\<close> bytes, the empty string at the end.\<close>

definition file_read :: "src_file \<Rightarrow> nat \<Rightarrow> nat \<Rightarrow> exn + byte list" where
  "file_read f pos n =
     (let chunk = take n (drop pos (fbytes f))
      in case read_err f of
           None \<Rightarrow> Inr chunk
         | Some (k, e) \<Rightarrow> if chunk \<noteq> [] \<and> k < pos + length chunk then Inl e else Inr chunk)"

subsection \<open>get\_file\_hash and is\_pe\_file\<close>

text \<open>
  \<^verbatim>\<open>for chunk in iter(lambda: f.read(4096), b""): sha256.update(chunk)\<close>: the loop reads
  4096 bytes at a time until a read returns the empty string.
\<close>

function read_chunks :: "src_file \<Rightarrow> nat \<Rightarrow> hasher \<Rightarrow> exn + hasher" where
  "read_chunks f pos sha =
     (case file_read f pos 4096 of
        Inl e \<Rightarrow> Inl e
      | Inr chunk \<Rightarrow>
          if chunk = [] then Inr sha
          else read_chunks f (pos + length chunk) (update sha chunk))"
  by pat_completeness auto
termination
proof (relation "measure (\<lambda>(f, pos, sha). length (fbytes f) - pos)")
  show "wf (measure (\<lambda>(f, pos, sha). length (fbytes f) - pos))"
    by simp
next
  fix f :: src_file and pos :: nat and sha :: hasher and chunk :: "byte list"
  assume r: "file_read f pos 4096 = Inr chunk" and ne: "chunk \<noteq> []"
  from r have c: "chunk = take 4096 (drop pos (fbytes f))"
    by (auto simp: file_read_def Let_def split: option.splits prod.splits if_splits)
  with ne have "pos < length (fbytes f)"
    by (cases "pos < length (fbytes f)") auto
  with ne show "((f, pos + length chunk, update sha chunk), (f, pos, sha))
      \<in> measure (\<lambda>(f, pos, sha). length (fbytes f) - pos)"
    by (cases chunk) auto
qed

declare read_chunks.simps [simp del]

definition get_file_hash :: "src_file \<Rightarrow> exn + string" where
  "get_file_hash f =
     (case open_rb f of
        Inl e \<Rightarrow> Inl e
      | Inr _ \<Rightarrow>
          (case read_chunks f 0 hashlib_sha256 of
             Inl e \<Rightarrow> Inl e
           | Inr sha \<Rightarrow> Inr (hexdigest sha)))"

text \<open>The body of the \<^verbatim>\<open>try\<close> of \<^verbatim>\<open>is_pe_file\<close>: open, read two bytes, compare with \<^verbatim>\<open>b'MZ'\<close>.\<close>

definition mz :: "byte list" where
  "mz = [0x4D, 0x5A]"

definition is_pe_file_try :: "src_file \<Rightarrow> exn + bool" where
  "is_pe_file_try f =
     (case open_rb f of
        Inl e \<Rightarrow> Inl e
      | Inr _ \<Rightarrow>
          (case file_read f 0 2 of
             Inl e \<Rightarrow> Inl e
           | Inr header \<Rightarrow> Inr (header = mz)))"

text \<open>The bare \<^verbatim>\<open>except: return False\<close> around it.\<close>

definition is_pe_file :: "src_file \<Rightarrow> exn + bool" where
  "is_pe_file f = (case is_pe_file_try f of Inl e \<Rightarrow> Inr False | Inr b \<Rightarrow> Inr b)"

subsection \<open>The organizer: statistics and destination tree\<close>

text \<open>
  \<^verbatim>\<open>self.stats\<close> is a dictionary created with exactly four keys, and no statement of the
  script adds or removes a key: a record of four integers. \<^verbatim>\<open>self.stats[k] += 1\<close> raises
  \<^verbatim>\<open>KeyError\<close> for any other key.
\<close>

record stats =
  malware :: int
  benign :: int
  duplicates :: int
  errors :: int

definition stats_incr :: "string \<Rightarrow> stats \<Rightarrow> exn + stats" where
  "stats_incr k st =
     (if k = ''malware'' then Inr (st\<lparr>malware := malware st + 1\<rparr>)
      else if k = ''benign'' then Inr (st\<lparr>benign := benign st + 1\<rparr>)
      else if k = ''duplicates'' then Inr (st\<lparr>duplicates := duplicates st + 1\<rparr>)
      else if k = ''errors'' then Inr (st\<lparr>errors := errors st + 1\<rparr>)
      else Inl (KeyError k))"

text \<open>
  A directory is an association list from file names to contents. The organizer is
  \<^verbatim>\<open>self.stats\<close> together with the part of the tree under \<^verbatim>\<open>self.base_dir\<close> that the
  script reads or writes: the directories \<^verbatim>\<open>original/<sample_type>\<close> (absent: \<open>None\<close>),
  whether \<^verbatim>\<open>metadata/\<close> exists, and the text of \<^verbatim>\<open>metadata/dataset_info.json\<close>.
\<close>

type_synonym dir = "(string \<times> byte list) list"

record organizer =
  stats :: stats
  original :: "string \<rightharpoonup> dir"
  metadata_dir :: bool
  dataset_info :: "string option"

definition SampleOrganizer :: "(string \<rightharpoonup> dir) \<Rightarrow> bool \<Rightarrow> string option \<Rightarrow> organizer" where
  "SampleOrganizer orig md info =
     \<lparr>stats = \<lparr>malware = 0, benign = 0, duplicates = 0, errors = 0\<rparr>,
      original = orig, metadata_dir = md, dataset_info = info\<rparr>"

text \<open>
  \<^verbatim>\<open>setup_directories\<close>: \<^verbatim>\<open>mkdir(parents=True, exist_ok=True)\<close> creates what is missing and
  keeps what is there. The \<^verbatim>\<open>packed/...\<close> and \<^verbatim>\<open>labels\<close> directories are not tracked.
\<close>

definition mkdir :: "string \<Rightarrow> (string \<rightharpoonup> dir) \<Rightarrow> (string \<rightharpoonup> dir)" where
  "mkdir p t = (case t p of None \<Rightarrow> t(p \<mapsto> []) | Some d \<Rightarrow> t)"

definition setup_directories :: "organizer \<Rightarrow> organizer" where
  "setup_directories self =
     self\<lparr>original := mkdir ''benign'' (mkdir ''malware'' (original self)), metadata_dir := True\<rparr>"

text \<open>
  \<^verbatim>\<open>shutil.copy2(file_path, dest_file)\<close> into \<^verbatim>\<open>original/<sample_type>/\<close>. It returns the
  tree afterwards and the exception raised, if any: a copy that fails midway leaves what
  it wrote. The script calls it only on a file it has just read to the end.
\<close>

definition copy2 ::
  "src_file \<Rightarrow> string \<Rightarrow> string \<Rightarrow> (string \<rightharpoonup> dir) \<Rightarrow> (string \<rightharpoonup> dir) \<times> exn option" where
  "copy2 f sample_type dest_name t =
     (case open_rb f of
        Inl e \<Rightarrow> (t, Some e)
      | Inr _ \<Rightarrow>
          (case t sample_type of
             None \<Rightarrow> (t, Some FileNotFoundError)
           | Some d \<Rightarrow>
               (case copy_err f of
                  Some (e, None) \<Rightarrow> (t, Some e)
                | Some (e, Some k) \<Rightarrow>
                    (t(sample_type \<mapsto> AList.update dest_name (take k (fbytes f)) d), Some e)
                | None \<Rightarrow> (t(sample_type \<mapsto> AList.update dest_name (fbytes f) d), None))))"

subsection \<open>organize\_samples\<close>



definition new_name :: "string \<Rightarrow> string \<Rightarrow> string \<Rightarrow> string" where
  "new_name sample_type file_hash name = sample_type @ ''_'' @ take 16 file_hash @ ''_'' @ name"

text \<open>The handler \<^verbatim>\<open>except Exception as e: self.stats['errors'] += 1\<close>.\<close>

definition count_error :: "organizer \<Rightarrow> organizer" where
  "count_error self = self\<lparr>stats := (stats self)\<lparr>errors := errors (stats self) + 1\<rparr>\<rparr>"

definition count_duplicate :: "organizer \<Rightarrow> organizer" where
  "count_duplicate self = self\<lparr>stats := (stats self)\<lparr>duplicates := duplicates (stats self) + 1\<rparr>\<rparr>"

text \<open>
  One iteration of the \<^verbatim>\<open>for\<close> loop, on the pair of \<^verbatim>\<open>seen_hashes\<close> and the organizer.
  What was changed before an exception stays changed: the digest is in \<^verbatim>\<open>seen_hashes\<close>
  before the copy is tried, and the file is copied before the counter is read.
\<close>

definition process_file ::
  "string \<Rightarrow> src_file \<Rightarrow> string set \<times> organizer \<Rightarrow> string set \<times> organizer" where
  "process_file sample_type f s =
     (let seen_hashes = fst s; self = snd s
      in case is_pe_file f of
           Inl e \<Rightarrow> (seen_hashes, count_error self)
         | Inr pe \<Rightarrow>
             if \<not> pe then (seen_hashes, count_error self)
             else
               (case get_file_hash f of
                  Inl e \<Rightarrow> (seen_hashes, count_error self)
                | Inr file_hash \<Rightarrow>
                    if file_hash \<in> seen_hashes then (seen_hashes, count_duplicate self)
                    else
                      (let seen_hashes' = insert file_hash seen_hashes;
                           (t, raised) =
                             copy2 f sample_type (new_name sample_type file_hash (fname f))
                               (original self);
                           self' = self\<lparr>original := t\<rparr>
                       in case raised of
                            Some e \<Rightarrow> (seen_hashes', count_error self')
                          | None \<Rightarrow>
                              (case stats_incr sample_type (stats self') of
                                 Inl e \<Rightarrow> (seen_hashes', count_error self')
                               | Inr st \<Rightarrow> (seen_hashes', self'\<lparr>stats := st\<rparr>)))))"

fun organize_loop ::
  "string \<Rightarrow> src_file list \<Rightarrow> string set \<times> organizer \<Rightarrow> string set \<times> organizer" where
  "organize_loop sample_type [] s = s"
| "organize_loop sample_type (f # fs) s = organize_loop sample_type fs (process_file sample_type f s)"


subsection \<open>generate\_metadata\<close>











subsection \<open>main\<close>




subsection \<open>Vocabulary of the properties\<close>

text \<open>
  A file is readable when opening it succeeds and every byte of it can be read: then it
  has a byte content as far as the script is concerned.
\<close>

definition readable :: "src_file \<Rightarrow> bool" where
  "readable f =
     (open_err f = None \<and>
      (case read_err f of None \<Rightarrow> True | Some (k, e) \<Rightarrow> length (fbytes f) \<le> k))"



definition accepted :: "string \<Rightarrow> src_file \<Rightarrow> string set \<Rightarrow> (string \<rightharpoonup> dir) \<Rightarrow> bool" where
  "accepted sample_type f seen t =
     (is_pe_file f = Inr True \<and>
      (case get_file_hash f of
         Inl e \<Rightarrow> False
       | Inr h \<Rightarrow> h \<notin> seen \<and> snd (copy2 f sample_type (new_name sample_type h (fname f)) t) = None))"




definition digest16 :: "string \<Rightarrow> string \<Rightarrow> string" where
  "digest16 sample_type n = take 16 (drop (length sample_type + 1) n)"




text \<open>The content of the file named \<open>n\<close> in \<^verbatim>\<open>original/<sample_type>/\<close>, if there is one.\<close>

definition dest_lookup :: "(string \<rightharpoonup> dir) \<Rightarrow> string \<Rightarrow> string \<Rightarrow> byte list option" where
  "dest_lookup t sample_type n = (case t sample_type of None \<Rightarrow> None | Some d \<Rightarrow> map_of d n)"

text \<open>A file of the destination, read back: nothing fails.\<close>

definition dest_file :: "string \<Rightarrow> byte list \<Rightarrow> src_file" where
  "dest_file n c = \<lparr>fname = n, fbytes = c, open_err = None, read_err = None, copy_err = None\<rparr>"

subsection \<open>Example inputs\<close>

text \<open>
  Two files with the same bytes and the \<^verbatim>\<open>MZ\<close> header, a file with another header, a file
  whose copy fails before the destination file is created (its destination path cannot be
  written), a file whose bytes after the header cannot be read, and a fresh organizer after
  \<^verbatim>\<open>setup_directories\<close> on an empty output directory.
\<close>

definition pe_bytes :: "byte list" where
  "pe_bytes = [0x4D, 0x5A, 0x90, 0x00]"

definition sample_a :: src_file where
  "sample_a = \<lparr>fname = ''a.exe'', fbytes = pe_bytes, open_err = None, read_err = None, copy_err = None\<rparr>"

definition sample_b :: src_file where
  "sample_b = \<lparr>fname = ''b.exe'', fbytes = pe_bytes, open_err = None, read_err = None, copy_err = None\<rparr>"

definition sample_c :: src_file where
  "sample_c = \<lparr>fname = ''c.exe'', fbytes = [0x7F, 0x45, 0x4C, 0x46], open_err = None, read_err = None,
     copy_err = None\<rparr>"

definition sample_x :: src_file where
  "sample_x = \<lparr>fname = ''x.exe'', fbytes = pe_bytes, open_err = None, read_err = None,
     copy_err = Some (OSError, None)\<rparr>"

definition sample_y :: src_file where
  "sample_y = \<lparr>fname = ''y.exe'', fbytes = pe_bytes, open_err = None, read_err = Some (2, OSError),
     copy_err = None\<rparr>"

definition fresh :: organizer where
  "fresh = setup_directories (SampleOrganizer Map.empty False None)"





section \<open>Properties\<close>

subsection \<open>Reading and hashing\<close>

lemma take_drop_length: "take n xs @ drop (length (take n xs)) xs = xs"
  by (cases "n \<le> length xs") (simp_all add: min_def)

lemma read_chunks_result:
  "read_chunks f pos sha = Inr r \<Longrightarrow> r = sha @ drop pos (fbytes f)"
proof (induction f pos sha rule: read_chunks.induct)
  case (1 f pos sha)
  show ?case
  proof (cases "file_read f pos 4096")
    case (Inl e)
    with "1.prems" show ?thesis by (simp add: read_chunks.simps[of f pos sha])
  next
    case (Inr chunk)
    then have c: "chunk = take 4096 (drop pos (fbytes f))"
      by (auto simp: file_read_def Let_def split: option.splits prod.splits if_splits)
    show ?thesis
    proof (cases "chunk = []")
      case True
      with c have "drop pos (fbytes f) = []" by simp
      with "1.prems" Inr True show ?thesis by (simp add: read_chunks.simps[of f pos sha])
    next
      case False
      with "1.prems" Inr have "read_chunks f (pos + length chunk) (update sha chunk) = Inr r"
        by (simp add: read_chunks.simps[of f pos sha])
      with "1.IH"[OF Inr False] have "r = update sha chunk @ drop (pos + length chunk) (fbytes f)"
        by simp
      moreover have "chunk @ drop (pos + length chunk) (fbytes f) = drop pos (fbytes f)"
        using take_drop_length[of 4096 "drop pos (fbytes f)"] c by (simp add: add.commute)
      ultimately show ?thesis by (simp add: update_def)
    qed
  qed
qed

lemma read_chunks_readable:
  "read_err f = None \<or> (\<exists>k e. read_err f = Some (k, e) \<and> length (fbytes f) \<le> k) \<Longrightarrow>
   \<exists>r. read_chunks f pos sha = Inr r"
proof (induction f pos sha rule: read_chunks.induct)
  case (1 f pos sha)
  define chunk where "chunk = take 4096 (drop pos (fbytes f))"
  have "pos + length chunk \<le> max pos (length (fbytes f))"
    by (simp add: chunk_def)
  have len: "pos + length chunk \<le> length (fbytes f) \<or> chunk = []"
    by (auto simp: chunk_def)
  have fr: "file_read f pos 4096 = Inr chunk"
    using "1.prems" len by (auto simp: file_read_def Let_def chunk_def[symmetric])
  show ?case
  proof (cases "chunk = []")
    case True
    with fr show ?thesis by (simp add: read_chunks.simps[of f pos sha])
  next
    case False
    from "1.IH"[OF fr False "1.prems"] fr False show ?thesis
      by (simp add: read_chunks.simps[of f pos sha])
  qed
qed

lemma loop_append:
  "organize_loop st (xs @ ys) s = organize_loop st ys (organize_loop st xs s)"
  by (induction xs arbitrary: s) auto

lemma length_hex32: "length (hex32 w) = 8"
  by (simp add: hex32_def)

lemma length_sha256_round: "length (sha256_round v kw) = 8"
  by (simp add: sha256_round_def Let_def)

lemma length_foldl_round: "length v = 8 \<Longrightarrow> length (foldl sha256_round v kws) = 8"
  by (induction kws arbitrary: v) (auto simp: length_sha256_round)

lemma length_sha256_block: "length hs = 8 \<Longrightarrow> length (sha256_block hs blk) = 8"
  by (simp add: sha256_block_def Let_def length_foldl_round)

lemma length_foldl_block: "length hs = 8 \<Longrightarrow> length (foldl sha256_block hs blks) = 8"
  by (induction blks arbitrary: hs) (auto simp: length_sha256_block)

lemma length_sha256: "length (sha256 m) = 8"
  by (simp add: sha256_def Let_def length_foldl_block sha256_h0_def)

lemma length_concat_const: "\<forall>x\<in>set xs. length x = n \<Longrightarrow> length (concat xs) = n * length xs"
  by (induction xs) auto

lemma length_sha256_hexdigest: "length (sha256_hexdigest m) = 64"
  using length_concat_const[of "map hex32 (sha256 m)" 8]
  by (simp add: sha256_hexdigest_def length_hex32 length_sha256)

text \<open>Two values of the digest, computed by the definitions above.\<close>

lemma sha256_hexdigest_empty:
  "sha256_hexdigest [] = ''e3b0c44298fc1c149afbf4c8996fb92427ae41e4649b934ca495991b7852b855''"
  by code_simp

lemma sha256_hexdigest_pe_bytes:
  "sha256_hexdigest pe_bytes = ''9f2981a7cc4d40a2a409dc895de64253acd819d7c0011c8e80b86fe899464e31''"
  by code_simp

lemma new_name_sample_a:
  "new_name ''malware'' (sha256_hexdigest pe_bytes) (fname sample_a) = ''malware_9f2981a7cc4d40a2_a.exe''"
  by (simp add: sha256_hexdigest_pe_bytes new_name_def sample_a_def)

lemma get_file_hash_Inr:
  "get_file_hash f = Inr h \<Longrightarrow> h = sha256_hexdigest (fbytes f)"
proof -
  assume a: "get_file_hash f = Inr h"
  then obtain sha where r: "read_chunks f 0 hashlib_sha256 = Inr sha" and h: "h = hexdigest sha"
    by (auto simp: get_file_hash_def split: sum.splits)
  from read_chunks_result[OF r] have "sha = fbytes f"
    by (simp add: hashlib_sha256_def)
  with h show ?thesis by (simp add: hexdigest_def)
qed

lemma get_file_hash_length: "get_file_hash f = Inr h \<Longrightarrow> length h = 64"
  by (auto dest!: get_file_hash_Inr simp: length_sha256_hexdigest)

lemma get_file_hash_readable:
  "readable f \<Longrightarrow> get_file_hash f = Inr (sha256_hexdigest (fbytes f))"
proof -
  assume r: "readable f"
  then have "read_err f = None \<or> (\<exists>k e. read_err f = Some (k, e) \<and> length (fbytes f) \<le> k)"
    by (auto simp: readable_def split: option.splits)
  from read_chunks_readable[OF this, of 0 hashlib_sha256]
  obtain x where x: "read_chunks f 0 hashlib_sha256 = Inr x" by blast
  from r have "open_rb f = Inr ()" by (simp add: readable_def open_rb_def)
  with x have "get_file_hash f = Inr (hexdigest x)"
    by (simp add: get_file_hash_def)
  with get_file_hash_Inr[of f "hexdigest x"] show ?thesis by simp
qed

lemma is_pe_file_total: "is_pe_file f \<noteq> Inl e"
  by (simp add: is_pe_file_def split: sum.splits)



lemma process_rejected:
  "is_pe_file f \<noteq> Inr True \<Longrightarrow> process_file st f s = (fst s, count_error (snd s))"
  by (cases "is_pe_file f") (auto simp: process_file_def Let_def)





lemma process_keyerror:
  "is_pe_file f = Inr True \<Longrightarrow> get_file_hash f = Inr h \<Longrightarrow> h \<notin> fst s \<Longrightarrow>
   copy2 f st (new_name st h (fname f)) (original (snd s)) = (t, None) \<Longrightarrow>
   stats_incr st (stats (snd s)) = Inl e \<Longrightarrow>
   process_file st f s = (insert h (fst s), count_error ((snd s)\<lparr>original := t\<rparr>))"
  by (simp add: process_file_def Let_def)



subsection \<open>Files without the signature\<close>


text \<open>Facts about the example inputs.\<close>

lemma fresh_simps:
  "original fresh ''malware'' = Some []" "original fresh ''benign'' = Some []"
  "stats fresh = \<lparr>malware = 0, benign = 0, duplicates = 0, errors = 0\<rparr>"
  "metadata_dir fresh" "dataset_info fresh = None"
  by (simp_all add: fresh_def setup_directories_def SampleOrganizer_def mkdir_def)

lemma readable_samples:
  "readable sample_a" "readable sample_b" "readable sample_c" "readable sample_x"
  by (simp_all add: readable_def sample_a_def sample_b_def sample_c_def sample_x_def)

lemma sample_hashes:
  "get_file_hash sample_a = Inr (sha256_hexdigest pe_bytes)"
  "get_file_hash sample_b = Inr (sha256_hexdigest pe_bytes)"
  "get_file_hash sample_x = Inr (sha256_hexdigest pe_bytes)"
  using readable_samples[THEN get_file_hash_readable]
  by (simp_all add: sample_a_def sample_b_def sample_x_def)

lemma sample_pe:
  "is_pe_file sample_a = Inr True" "is_pe_file sample_b = Inr True"
  "is_pe_file sample_c = Inr False" "is_pe_file sample_x = Inr True"
  "is_pe_file sample_y = Inr True"
  by (simp_all add: is_pe_file_def is_pe_file_try_def file_read_def open_rb_def mz_def pe_bytes_def
      sample_a_def sample_b_def sample_c_def sample_x_def sample_y_def)


subsection \<open>The validator never raises\<close>

text \<open>
  C7. When opening the file or reading its first two bytes raises (a missing file, a
  permission denial, any other fault), \<^verbatim>\<open>is_pe_file\<close> returns \<^verbatim>\<open>False\<close>; and for every
  input it returns a truth value, never an exception.
\<close>

theorem is_pe_file_soft_fail:
  "(open_rb f = Inl e \<or> file_read f 0 2 = Inl e \<longrightarrow> is_pe_file f = Inr False) \<and>
   (is_pe_file f = Inr False \<or> is_pe_file f = Inr True)"
proof -
  have "is_pe_file f = Inr False" if "open_rb f = Inl e \<or> file_read f 0 2 = Inl e"
    using that by (auto simp: is_pe_file_def is_pe_file_try_def split: sum.splits)
  moreover have "is_pe_file f = Inr False \<or> is_pe_file f = Inr True"
    by (cases "is_pe_file f") (auto simp: is_pe_file_total)
  ultimately show ?thesis by blast
qed

theorem is_pe_file_soft_fail_witness:
  "open_rb (sample_a\<lparr>open_err := Some PermissionError\<rparr>) = Inl PermissionError \<and>
   is_pe_file (sample_a\<lparr>open_err := Some PermissionError\<rparr>) = Inr False \<and>
   file_read (sample_a\<lparr>read_err := Some (0, OSError)\<rparr>) 0 2 = Inl OSError \<and>
   is_pe_file (sample_a\<lparr>read_err := Some (0, OSError)\<rparr>) = Inr False"
proof -
  have o: "open_rb (sample_a\<lparr>open_err := Some PermissionError\<rparr>) = Inl PermissionError"
    by (simp add: open_rb_def)
  have r: "file_read (sample_a\<lparr>read_err := Some (0, OSError)\<rparr>) 0 2 = Inl OSError"
    by (simp add: file_read_def sample_a_def pe_bytes_def)
  from o r
    is_pe_file_soft_fail[of "sample_a\<lparr>open_err := Some PermissionError\<rparr>" PermissionError]
    is_pe_file_soft_fail[of "sample_a\<lparr>read_err := Some (0, OSError)\<rparr>" OSError]
  show ?thesis by blast
qed

subsection \<open>Exceptions of one file\<close>



lemma loop_c_fresh: "process_file ''malware'' sample_c ({}, fresh) = ({}, count_error fresh)"
  by (simp add: process_rejected sample_pe)



subsection \<open>The outcomes of one file\<close>

lemma copy2_None:
  "copy2 f st n t = (t', None) \<Longrightarrow>
   \<exists>d. t st = Some d \<and> t' = t(st \<mapsto> AList.update n (fbytes f) d)"
  by (auto simp: copy2_def split: sum.splits option.splits prod.splits)




subsection \<open>What an iteration does to the destination\<close>

lemma copy2_lookup_other:
  "k \<noteq> n \<or> st' \<noteq> st \<Longrightarrow>
   dest_lookup (fst (copy2 f st n t)) st' k = dest_lookup t st' k"
  by (auto simp: copy2_def dest_lookup_def update_conv' split: sum.splits option.splits prod.splits)


lemma copy2_lookup_None:
  "copy2 f st n t = (t', None) \<Longrightarrow> dest_lookup t' st n = Some (fbytes f)"
  by (auto simp: dest_lookup_def update_conv' dest!: copy2_None)

lemma process_original:
  "original (snd (process_file st f s)) = original (snd s) \<or>
   (\<exists>h. is_pe_file f = Inr True \<and> get_file_hash f = Inr h \<and> h \<notin> fst s \<and>
      original (snd (process_file st f s)) =
        fst (copy2 f st (new_name st h (fname f)) (original (snd s))))"
  by (auto simp: process_file_def Let_def count_error_def count_duplicate_def
      split: sum.splits prod.splits option.splits if_splits)

lemma process_lookup_other:
  assumes "st' \<noteq> st \<or> (\<forall>h. get_file_hash f = Inr h \<longrightarrow> new_name st h (fname f) \<noteq> k)"
  shows "dest_lookup (original (snd (process_file st f s))) st' k = dest_lookup (original (snd s)) st' k"
  using process_original[of st f s] assms
  by (auto simp: copy2_lookup_other)



lemma new_name_inject:
  assumes "length h = 64" "length h' = 64" "new_name st h n = new_name st h' n'"
  shows "n = n'"
proof -
  from assms(3) have "take 16 h @ ''_'' @ n = take 16 h' @ ''_'' @ n'"
    by (simp add: new_name_def)
  moreover have "length (take 16 h) = length (take 16 h')"
    using assms(1,2) by simp
  ultimately show ?thesis by simp
qed

lemma loop_lookup_other:
  assumes "st' \<noteq> st \<or> (\<forall>g\<in>set fs. \<forall>h. get_file_hash g = Inr h \<longrightarrow> new_name st h (fname g) \<noteq> k)"
  shows "dest_lookup (original (snd (organize_loop st fs s))) st' k = dest_lookup (original (snd s)) st' k"
  using assms
proof (induction fs arbitrary: s)
  case Nil
  then show ?case by simp
next
  case (Cons g fs)
  from Cons.prems have 1: "st' \<noteq> st \<or> (\<forall>h. get_file_hash g = Inr h \<longrightarrow> new_name st h (fname g) \<noteq> k)"
    and 2: "st' \<noteq> st \<or> (\<forall>g\<in>set fs. \<forall>h. get_file_hash g = Inr h \<longrightarrow> new_name st h (fname g) \<noteq> k)"
    by auto
  from Cons.IH[OF 2, of "process_file st g s"] process_lookup_other[OF 1, of s]
  show ?case by simp
qed

lemma loop_keeps_file:
  assumes "length h = 64" "fname f \<notin> fname ` set fs"
  shows "dest_lookup (original (snd (organize_loop st fs s))) st (new_name st h (fname f)) =
         dest_lookup (original (snd s)) st (new_name st h (fname f))"
proof (rule loop_lookup_other, rule disjI2, intro ballI allI impI)
  fix g h' assume g: "g \<in> set fs" and h': "get_file_hash g = Inr h'"
  show "new_name st h' (fname g) \<noteq> new_name st h (fname f)"
  proof
    assume "new_name st h' (fname g) = new_name st h (fname f)"
    from new_name_inject[OF get_file_hash_length[OF h'] assms(1) this]
    have "fname g = fname f" .
    with g have "fname f \<in> fname ` set fs" by (metis imageI)
    with assms(2) show False by simp
  qed
qed


subsection \<open>A failed copy and the files after it\<close>





subsection \<open>Files with the same content\<close>



lemma sample_fields:
  "fname sample_a = ''a.exe''" "fbytes sample_a = pe_bytes"
  "fname sample_b = ''b.exe''" "fbytes sample_b = pe_bytes"
  "fname sample_c = ''c.exe''"
  "fname sample_x = ''x.exe''" "fbytes sample_x = pe_bytes"
  "copy_err sample_a = None" "copy_err sample_b = None" "copy_err sample_c = None"
  by (simp_all add: sample_a_def sample_b_def sample_c_def sample_x_def)

lemma copy2_ok:
  "readable f \<Longrightarrow> copy_err f = None \<Longrightarrow> t st = Some d \<Longrightarrow>
   copy2 f st n t = (t(st \<mapsto> AList.update n (fbytes f) d), None)"
  by (simp add: copy2_def open_rb_def readable_def)


subsection \<open>The digest in the name of an accepted file\<close>

lemma hex_digit_range: "hex_digit k \<in> set ''0123456789abcdef''"
  unfolding hex_digit_def by (rule nth_mem) simp

lemma set_hex32: "set (hex32 w) \<subseteq> set ''0123456789abcdef''"
proof
  fix c assume "c \<in> set (hex32 w)"
  then obtain i where "c = hex_digit (unat (drop_bit (4 * i) w AND 15))"
    unfolding hex32_def set_map by blast
  then show "c \<in> set ''0123456789abcdef''"
    using hex_digit_range by blast
qed

lemma set_sha256_hexdigest: "set (sha256_hexdigest m) \<subseteq> set ''0123456789abcdef''"
proof
  fix c assume "c \<in> set (sha256_hexdigest m)"
  then obtain w where "c \<in> set (hex32 w)"
    unfolding sha256_hexdigest_def set_concat set_map by blast
  then show "c \<in> set ''0123456789abcdef''"
    using set_hex32 by blast
qed

lemma digest16_new_name:
  "length h = 64 \<Longrightarrow> digest16 st (new_name st h n) = take 16 h"
  by (simp add: digest16_def new_name_def)

lemma readable_dest_file: "readable (dest_file n c)"
  by (simp add: readable_def dest_file_def)

text \<open>
  C4. A file accepted by the loop is in the destination at the end of the call (no later
  candidate has its name) under the name \<^verbatim>\<open><sample_type>_<digest16>_<name>\<close>, and the 16
  characters after the label in that name are hexadecimal digits and equal the first 16
  characters of the digest that \<^verbatim>\<open>get_file_hash\<close> computes from the content of the
  destination file.
\<close>

theorem accepted_name_digest_roundtrip:
  fixes st :: string and f :: src_file and pre post :: "src_file list"
    and s :: "string set \<times> organizer"
  defines "s1 \<equiv> organize_loop st pre s"
  defines "final \<equiv> organize_loop st (pre @ f # post) s"
  assumes a: "accepted st f (fst s1) (original (snd s1))"
    and names: "fname f \<notin> fname ` set post"
  shows "\<exists>h n c recomputed.
           get_file_hash f = Inr h \<and>
           n = new_name st h (fname f) \<and>
           dest_lookup (original (snd final)) st n = Some c \<and>
           c = fbytes f \<and>
           get_file_hash (dest_file n c) = Inr recomputed \<and>
           digest16 st n = take 16 recomputed \<and>
           length (digest16 st n) = 16 \<and>
           set (digest16 st n) \<subseteq> set ''0123456789abcdef''"
proof -
  from a obtain h where pe: "is_pe_file f = Inr True" and h: "get_file_hash f = Inr h"
    and new: "h \<notin> fst s1"
    and c: "snd (copy2 f st (new_name st h (fname f)) (original (snd s1))) = None"
    by (auto simp: accepted_def split: sum.splits)
  define n where "n = new_name st h (fname f)"
  define s2 where "s2 = process_file st f s1"
  obtain t where t: "copy2 f st n (original (snd s1)) = (t, None)"
    using c by (cases "copy2 f st n (original (snd s1))") (auto simp: n_def)
  have hh: "h = sha256_hexdigest (fbytes f)"
    using get_file_hash_Inr[OF h] .
  have len: "length h = 64"
    using get_file_hash_length[OF h] .
  have "original (snd s2) = t"
    unfolding s2_def using pe h new t
    by (auto simp: process_file_def Let_def n_def count_error_def split: sum.splits)
  with copy2_lookup_None[OF t] have l: "dest_lookup (original (snd s2)) st n = Some (fbytes f)"
    by simp
  have "final = organize_loop st post s2"
    by (simp add: final_def s2_def s1_def loop_append)
  with loop_keeps_file[OF len names, where st = st and s = s2] l
  have fin: "dest_lookup (original (snd final)) st n = Some (fbytes f)"
    by (simp add: n_def)
  have re: "get_file_hash (dest_file n (fbytes f)) = Inr h"
    using get_file_hash_readable[OF readable_dest_file, of n "fbytes f"] hh
    by (simp add: dest_file_def)
  have d: "digest16 st n = take 16 h"
    unfolding n_def by (rule digest16_new_name[OF len])
  have "set (take 16 h) \<subseteq> set ''0123456789abcdef''"
    using set_take_subset[of 16 h] set_sha256_hexdigest[of "fbytes f"] hh by blast
  with h fin re d len show ?thesis
    unfolding n_def by auto
qed

theorem accepted_name_digest_roundtrip_witness:
  "accepted ''malware'' sample_a (fst (organize_loop ''malware'' [sample_c] ({}, fresh)))
     (original (snd (organize_loop ''malware'' [sample_c] ({}, fresh)))) \<and>
   fname sample_a \<notin> fname ` set [sample_b] \<and>
   (\<exists>h n c recomputed.
      get_file_hash sample_a = Inr h \<and>
      n = new_name ''malware'' h (fname sample_a) \<and>
      dest_lookup (original (snd (organize_loop ''malware'' ([sample_c] @ sample_a # [sample_b]) ({}, fresh))))
        ''malware'' n = Some c \<and>
      c = fbytes sample_a \<and>
      get_file_hash (dest_file n c) = Inr recomputed \<and>
      digest16 ''malware'' n = take 16 recomputed \<and>
      length (digest16 ''malware'' n) = 16 \<and>
      set (digest16 ''malware'' n) \<subseteq> set ''0123456789abcdef'')"
proof -
  have c: "snd (copy2 sample_a ''malware'' k (original (count_error fresh))) = None" for k
    using copy2_ok[OF readable_samples(1) sample_fields(8), of "original (count_error fresh)" "''malware''" "[]" k]
    by (simp add: count_error_def fresh_simps)
  have a: "accepted ''malware'' sample_a (fst (organize_loop ''malware'' [sample_c] ({}, fresh)))
     (original (snd (organize_loop ''malware'' [sample_c] ({}, fresh))))"
    by (simp add: loop_c_fresh accepted_def sample_pe sample_hashes c)
  have n: "fname sample_a \<notin> fname ` set [sample_b]"
    by (simp add: sample_fields)
  from accepted_name_digest_roundtrip[OF a n] a n show ?thesis
    by blast
qed

subsection \<open>The write of the metadata record\<close>






subsection \<open>The counters and the accepted digests of a whole call\<close>
























subsection \<open>Two sample types in one run\<close>












end
